theory Spec2Isabelle
  imports Complex_Main "HOL-Library.Sublist"
begin

section \<open>Data of the bot\<close>

text \<open>
  A Python \<open>str\<close> is a sequence of Unicode code points; it is modelled as the list of
  their numbers. \<open>str_of\<close> reads an ASCII literal as such a sequence.
\<close>

type_synonym pystr = "nat list"

definition str_of :: "string \<Rightarrow> pystr" where
  "str_of s = map of_char s"

text \<open>An exception raised by one of the library calls the worker makes.\<close>

datatype error = EmulationError | ValueError

text \<open>
  The records written with \<open>log.info\<close>. The thread name that \<open>input_queue_pop\<close> puts in
  front of its two records is left out.
\<close>

datatype log_record =
    Commands_status bool
  | Handling_one_input
  | Executing_input pystr
  | Queueing_input pystr
  | Ignoring_message_from_bot pystr
  | Got_user_message pystr pystr

text \<open>
  What a call does to the world outside the bot object, in the order it happens:
  a log record, a call of the input emulator, a call of \<open>time.sleep\<close>.
\<close>

datatype 't event =
    Log_info log_record
  | Key_down pystr
  | Key_up pystr
  | Sleep 't

text \<open>
  The input emulator (\<open>pydirectinput\<close> or \<open>pyautogui\<close>) and the host the program runs
  on. They are libraries, not code of this program, so they are parameters: each call
  either returns or raises.
\<close>

record emulator =
  keyDown :: "pystr \<Rightarrow> error + unit"
  keyUp :: "pystr \<Rightarrow> error + unit"

record 't host =
  win32 :: bool
  pydirectinput :: emulator
  pyautogui :: emulator
  sleep :: "'t \<Rightarrow> error + unit"

text \<open>
  The attributes of \<open>TwitchPlaysRetroArchBot\<close> set in \<open>__init__\<close>. The thread pool is
  kept as its \<open>max_workers\<close> and the number of calls of \<open>input_queue_pop\<close> submitted to
  it; the queue is the list of its items, oldest first.
\<close>

record 't bot =
  keypress_delay :: 't
  keypress_duration :: 't
  commandset :: "pystr \<rightharpoonup> pystr"
  case_insensitive :: bool
  twitchplays_commands_enabled :: bool
  input_queue :: "pystr list"
  max_workers :: int
  submitted :: nat

record message =
  content :: pystr
  echo :: bool
  author_name :: pystr

text \<open>The values \<open>main\<close> reads from the loaded configuration file.\<close>

record 't config =
  cfg_case_insensitive :: bool
  cfg_input_threads :: int
  cfg_keypress_duration :: 't
  cfg_keypress_delay :: 't
  cfg_keys :: "pystr \<rightharpoonup> pystr"

section \<open>Case folding\<close>

text \<open>
  \<open>str.casefold\<close> is a built-in of Python, so the functions of the bot take the folding
  function as a parameter \<open>cf\<close> and the general theorems hold for every such function.
  \<open>casefold\<close> is the built-in on the code points below 128 and on the Cherokee letters
  (U+13A0 to U+13FF and U+AB70 to U+ABBF), where the small letters fold to the capital
  ones; it leaves every other code point as it is, and serves where a theorem is
  evaluated at concrete strings of these code points.
\<close>

definition casefold_cp :: "nat \<Rightarrow> nat list" where
  "casefold_cp c =
     (if 65 \<le> c \<and> c \<le> 90 then [c + 32]
      else if 5112 \<le> c \<and> c \<le> 5117 then [c - 8]
      else if 43888 \<le> c \<and> c \<le> 43967 then [c - 38864]
      else [c])"

definition casefold :: "pystr \<Rightarrow> pystr" where
  "casefold s = concat (map casefold_cp s)"

text \<open>A capital letter of the Basic Latin block, \<open>A\<close> to \<open>Z\<close>.\<close>

definition ascii_upper :: "nat \<Rightarrow> bool" where
  "ascii_upper c = (65 \<le> c \<and> c \<le> 90)"

section \<open>The bot\<close>

text \<open>
  \<open>__init__\<close>, with its keyword arguments in the order \<open>keypress_delay\<close>,
  \<open>keypress_duration\<close>, \<open>input_threads\<close>, \<open>commandset\<close>, \<open>case_insensitive\<close>.
\<close>

definition init :: "'t \<Rightarrow> 't \<Rightarrow> int \<Rightarrow> (pystr \<rightharpoonup> pystr) \<Rightarrow> bool \<Rightarrow> 't bot" where
  "init keypress_delay' keypress_duration' input_threads commandset' case_insensitive' =
     \<lparr> keypress_delay = keypress_delay',
       keypress_duration = keypress_duration',
       commandset = commandset',
       case_insensitive = case_insensitive',
       twitchplays_commands_enabled = True,
       input_queue = [],
       max_workers = input_threads,
       submitted = 0 \<rparr>"

text \<open>The bot that \<open>main\<close> builds from the configuration.\<close>

definition main_bot :: "'t config \<Rightarrow> 't bot" where
  "main_bot config =
     init (cfg_keypress_duration config)  \<comment> \<open>\<open>keypress_delay=config['bot']['keypress_duration']\<close>\<close>
          (cfg_keypress_duration config)  \<comment> \<open>\<open>keypress_duration=config['bot']['keypress_duration']\<close>\<close>
          (cfg_input_threads config)
          (cfg_keys config)
          (cfg_case_insensitive config)"

definition twitchplays_commands_toggle :: "'t bot \<Rightarrow> 't event list \<times> 't bot" where
  "twitchplays_commands_toggle b =
     (let b' = b\<lparr>twitchplays_commands_enabled := \<not> twitchplays_commands_enabled b\<rparr>
      in ([Log_info (Commands_status (twitchplays_commands_enabled b'))], b'))"

text \<open>
  Statements run one after the other: each is the result of its call and the events it
  caused; the first one that raises ends the sequence.
\<close>

fun run_seq :: "((error + unit) \<times> 't event list) list \<Rightarrow> (error + unit) \<times> 't event list" where
  "run_seq [] = (Inr (), [])"
| "run_seq ((Inl e, evs) # rest) = (Inl e, evs)"
| "run_seq ((Inr u, evs) # rest) = (fst (run_seq rest), evs @ snd (run_seq rest))"

text \<open>
  \<open>input_queue_pop\<close>, the unit of work of a pool thread. \<open>Queue.get\<close> on an empty queue
  blocks: the call has not returned, which is the result \<open>None\<close>. Otherwise the result
  is \<open>Some\<close> of how the call ended, with the events it caused and the bot afterwards.
\<close>

definition input_queue_pop ::
  "'t host \<Rightarrow> 't bot \<Rightarrow> (error + unit) option \<times> 't event list \<times> 't bot" where
  "input_queue_pop h b =
     (case input_queue b of
        [] \<Rightarrow> (None, [Log_info Handling_one_input], b)
      | key_to_press # rest \<Rightarrow>
          (let input_emulator = (if win32 h then pydirectinput h else pyautogui h);
               r = run_seq
                 [(Inr (), [Log_info Handling_one_input, Log_info (Executing_input key_to_press)]),
                  (keyDown input_emulator key_to_press, [Key_down key_to_press]),
                  (sleep h (keypress_duration b), [Sleep (keypress_duration b)]),
                  (keyUp input_emulator key_to_press, [Key_up key_to_press]),
                  (sleep h (keypress_delay b), [Sleep (keypress_delay b)])]
           in (Some (fst r), snd r, b\<lparr>input_queue := rest\<rparr>)))"

text \<open>
  \<open>process_twitchplays_commands\<close>: the returned flag, the events and the bot afterwards.
  \<open>put\<close> appends to the queue and \<open>submit\<close> hands one more call of \<open>input_queue_pop\<close>
  to the pool.
\<close>

definition process_twitchplays_commands ::
  "(pystr \<Rightarrow> pystr) \<Rightarrow> 't bot \<Rightarrow> message \<Rightarrow> bool \<times> 't event list \<times> 't bot" where
  "process_twitchplays_commands cf b message =
     (let command = content message;
          command = (if case_insensitive b then cf command else command)
      in case commandset b command of
           Some key_to_press \<Rightarrow>
             (True, [Log_info (Queueing_input key_to_press)],
              b\<lparr>input_queue := input_queue b @ [key_to_press], submitted := Suc (submitted b)\<rparr>)
         | None \<Rightarrow> (False, [], b))"

text \<open>
  \<open>event_message\<close>. It returns no value; the model gives the events and the bot
  afterwards. The closing call of the base class's \<open>handle_commands\<close> dispatches the
  prefixed commands of the chat library and touches none of the attributes above.
\<close>

definition event_message :: "(pystr \<Rightarrow> pystr) \<Rightarrow> 't bot \<Rightarrow> message \<Rightarrow> 't event list \<times> 't bot" where
  "event_message cf b message =
     (if echo message then ([Log_info (Ignoring_message_from_bot (content message))], b)
      else
        (let got = [Log_info (Got_user_message (author_name message) (content message))]
         in if twitchplays_commands_enabled b
            then (got @ fst (snd (process_twitchplays_commands cf b message)),
                  snd (snd (process_twitchplays_commands cf b message)))
            else (got, b)))"

text \<open>
  The value a call of \<open>event_message\<close> returns, given apart from its effects. It is
  Python's \<open>None\<close> (here \<open>None\<close>, a flag would be \<open>Some\<close> of it) on each path: at the bare
  \<open>return\<close> after the echo check, and at the end of the body, where the flag that
  \<open>process_twitchplays_commands\<close> returned has been dropped.
\<close>

definition event_message_result :: "(pystr \<Rightarrow> pystr) \<Rightarrow> 't bot \<Rightarrow> message \<Rightarrow> bool option" where
  "event_message_result cf b message =
     (if echo message then None
      else if twitchplays_commands_enabled b
           then (let dropped = fst (process_twitchplays_commands cf b message) in None)
           else None)"

text \<open>
  A thread of the pool. The pool is \<open>concurrent.futures.ThreadPoolExecutor\<close>, a library,
  given here as the library documents it: the thread takes the submitted calls one after
  the other, runs each and stores what the call returned or raised in the future of that
  call, then goes on to the next one. \<open>pool_worker h n b\<close> runs \<open>n\<close> submitted calls of
  \<open>input_queue_pop\<close> and gives the contents of their futures, the events and the bot
  afterwards; a call that waits in \<open>Queue.get\<close> keeps the thread waiting.
\<close>

fun pool_worker :: "'t host \<Rightarrow> nat \<Rightarrow> 't bot \<Rightarrow> (error + unit) list \<times> 't event list \<times> 't bot" where
  "pool_worker h 0 b = ([], [], b)"
| "pool_worker h (Suc n) b =
     (case input_queue_pop h b of
        (None, evs, b') \<Rightarrow> ([], evs, b')
      | (Some outcome, evs, b') \<Rightarrow>
          (outcome # fst (pool_worker h n b'),
           evs @ fst (snd (pool_worker h n b')),
           snd (snd (pool_worker h n b'))))"

section \<open>Concrete inputs\<close>

text \<open>
  The class attribute \<open>test_keys_fbneo\<close>, and the command set of the scenario with the
  messages LEFT, jump, Start.
\<close>

definition test_keys_fbneo :: "pystr \<rightharpoonup> pystr" where
  "test_keys_fbneo = map_of
     [(str_of ''up'', str_of ''up''),
      (str_of ''down'', str_of ''down''),
      (str_of ''left'', str_of ''left''),
      (str_of ''right'', str_of ''right''),
      (str_of ''button1'', str_of ''z''),
      (str_of ''button2'', str_of ''x''),
      (str_of ''start'', str_of ''enter''),
      (str_of ''COIN'', str_of ''shiftright'')]"

definition scenario_keys :: "pystr \<rightharpoonup> pystr" where
  "scenario_keys = map_of
     [(str_of ''left'', str_of ''left''),
      (str_of ''start'', str_of ''enter'')]"

text \<open>
  A configuration with a key press of a tenth of a second and a delay of half a second
  between key presses, in seconds.
\<close>

definition scenario_config :: "real config" where
  "scenario_config =
     \<lparr> cfg_case_insensitive = True,
       cfg_input_threads = 1,
       cfg_keypress_duration = 1 / 10,
       cfg_keypress_delay = 1 / 2,
       cfg_keys = scenario_keys \<rparr>"

text \<open>
  A command set with one key, the Cherokee capital letter A (U+13A0, code point 5024);
  the small letter A is U+AB70, code point 43888.
\<close>

definition cherokee_keys :: "pystr \<rightharpoonup> pystr" where
  "cherokee_keys = map_of [([5024], str_of ''a'')]"

definition user_message :: "string \<Rightarrow> message" where
  "user_message s = \<lparr> content = str_of s, echo = False, author_name = str_of ''viewer'' \<rparr>"

text \<open>
  Emulators: one whose calls all return, one whose \<open>keyDown\<close> raises, one whose
  \<open>keyUp\<close> raises. A host that is not Windows, with an emulator as its \<open>pyautogui\<close>;
  its \<open>time.sleep\<close> raises on a negative number of seconds, as the built-in does.
\<close>

definition working_emulator :: emulator where
  "working_emulator = \<lparr> keyDown = (\<lambda>k. Inr ()), keyUp = (\<lambda>k. Inr ()) \<rparr>"

definition keyDown_fails :: emulator where
  "keyDown_fails = \<lparr> keyDown = (\<lambda>k. Inl EmulationError), keyUp = (\<lambda>k. Inr ()) \<rparr>"

definition keyUp_fails :: emulator where
  "keyUp_fails = \<lparr> keyDown = (\<lambda>k. Inr ()), keyUp = (\<lambda>k. Inl EmulationError) \<rparr>"

text \<open>An emulator whose \<open>keyDown\<close> raises for one key and returns for every other.\<close>

definition keyDown_fails_on :: "pystr \<Rightarrow> emulator" where
  "keyDown_fails_on bad =
     \<lparr> keyDown = (\<lambda>k. if k = bad then Inl EmulationError else Inr ()), keyUp = (\<lambda>k. Inr ()) \<rparr>"

definition posix_host :: "emulator \<Rightarrow> real host" where
  "posix_host em =
     \<lparr> win32 = False,
       pydirectinput = working_emulator,
       pyautogui = em,
       sleep = (\<lambda>d. if d < 0 then Inl ValueError else Inr ()) \<rparr>"

section \<open>The control switch\<close>

text \<open>
  C8. Toggling twice gives back the bot it started from, whatever the switch was: the
  switch has its original value and nothing else has changed. The switch is a \<open>bool\<close>
  before and after.
\<close>

theorem toggle_twice:
  "snd (twitchplays_commands_toggle (snd (twitchplays_commands_toggle b))) = b
   \<and> twitchplays_commands_enabled (snd (twitchplays_commands_toggle b))
       = (\<not> twitchplays_commands_enabled b)"
  by (simp add: twitchplays_commands_toggle_def Let_def)

section \<open>Evaluation at the concrete inputs\<close>

lemmas input_defs =
  test_keys_fbneo_def scenario_keys_def scenario_config_def user_message_def
  working_emulator_def keyDown_fails_def keyUp_fails_def keyDown_fails_on_def posix_host_def
  main_bot_def init_def str_of_def casefold_def casefold_cp_def cherokee_keys_def

section \<open>The command processor\<close>

text \<open>The two branches of \<open>process_twitchplays_commands\<close>, and the gate in front of it.\<close>

lemma process_hit:
  "commandset b (if case_insensitive b then cf (content m) else content m) = Some v \<Longrightarrow>
   process_twitchplays_commands cf b m =
     (True, [Log_info (Queueing_input v)],
      b\<lparr>input_queue := input_queue b @ [v], submitted := Suc (submitted b)\<rparr>)"
  by (simp add: process_twitchplays_commands_def Let_def)

lemma process_miss:
  "commandset b (if case_insensitive b then cf (content m) else content m) = None \<Longrightarrow>
   process_twitchplays_commands cf b m = (False, [], b)"
  by (simp add: process_twitchplays_commands_def Let_def)

lemma event_message_enabled:
  "twitchplays_commands_enabled b \<Longrightarrow> \<not> echo m \<Longrightarrow>
   snd (event_message cf b m) = snd (snd (process_twitchplays_commands cf b m))"
  by (simp add: event_message_def Let_def)

lemma event_message_disabled:
  "\<not> twitchplays_commands_enabled b \<Longrightarrow>
   event_message cf b m =
     ([Log_info (if echo m then Ignoring_message_from_bot (content m)
                 else Got_user_message (author_name m) (content m))], b)"
  by (simp add: event_message_def Let_def)

lemma event_message_returns_None: "event_message_result cf b m = None"
  by (simp add: event_message_result_def Let_def)

text \<open>
  C2. When the switch is enabled and the text of the message, casefolded if
  \<open>case_insensitive\<close> is set, is a key of the command set with value \<open>v\<close>,
  \<open>process_twitchplays_commands\<close> returns \<open>True\<close>, appends exactly \<open>v\<close> to the queue and
  submits one worker call; \<open>event_message\<close>, for a message that is not the bot's own
  echo, leaves the bot in that state.
\<close>

theorem matched_message_is_queued:
  assumes "twitchplays_commands_enabled b"
    and "commandset b (if case_insensitive b then cf (content m) else content m) = Some v"
  shows "process_twitchplays_commands cf b m =
           (True, [Log_info (Queueing_input v)],
            b\<lparr>input_queue := input_queue b @ [v], submitted := Suc (submitted b)\<rparr>)
         \<and> (\<not> echo m \<longrightarrow>
              snd (event_message cf b m) =
                b\<lparr>input_queue := input_queue b @ [v], submitted := Suc (submitted b)\<rparr>)"
  using assms by (simp add: process_hit event_message_enabled)

theorem matched_message_is_queued_witness:
  "twitchplays_commands_enabled (main_bot scenario_config)
   \<and> commandset (main_bot scenario_config) (casefold (content (user_message ''Start'')))
       = Some (str_of ''enter'')
   \<and> fst (process_twitchplays_commands casefold (main_bot scenario_config) (user_message ''Start''))
   \<and> input_queue (snd (event_message casefold (main_bot scenario_config) (user_message ''Start'')))
       = [str_of ''enter'']
   \<and> submitted (snd (event_message casefold (main_bot scenario_config) (user_message ''Start''))) = 1"
  using matched_message_is_queued
    [of "main_bot scenario_config" casefold "user_message ''Start''" "str_of ''enter''"]
  by (simp add: input_defs)

text \<open>
  C3. When the switch is disabled, \<open>event_message\<close> returns \<open>None\<close>, as it does on each
  of its paths, and leaves the bot as it was for every message: the queue gains nothing
  and no worker call is submitted. Its only event is the log record of the message's
  arrival, and the outcome is the same whatever the command set \<open>t\<close> holds, so the
  message is dropped without a lookup and kept nowhere.
\<close>

theorem disabled_drops_message:
  assumes "\<not> twitchplays_commands_enabled b"
  shows "event_message_result cf b m = None
         \<and> snd (event_message cf b m) = b
         \<and> fst (event_message cf b m) =
             [Log_info (if echo m then Ignoring_message_from_bot (content m)
                        else Got_user_message (author_name m) (content m))]
         \<and> snd (event_message cf (b\<lparr>commandset := t\<rparr>) m) = b\<lparr>commandset := t\<rparr>"
  using assms by (simp add: event_message_disabled event_message_returns_None)

theorem disabled_drops_message_witness:
  "\<not> twitchplays_commands_enabled (snd (twitchplays_commands_toggle (main_bot scenario_config)))
   \<and> commandset (main_bot scenario_config) (casefold (content (user_message ''LEFT'')))
       = Some (str_of ''left'')
   \<and> event_message_result casefold (snd (twitchplays_commands_toggle (main_bot scenario_config)))
        (user_message ''LEFT'') = None
   \<and> snd (event_message casefold (snd (twitchplays_commands_toggle (main_bot scenario_config)))
            (user_message ''LEFT''))
       = snd (twitchplays_commands_toggle (main_bot scenario_config))
   \<and> input_queue (snd (event_message casefold
        (snd (twitchplays_commands_toggle (main_bot scenario_config))) (user_message ''LEFT''))) = []"
  using disabled_drops_message
    [of "snd (twitchplays_commands_toggle (main_bot scenario_config))" casefold
        "user_message ''LEFT''" scenario_keys]
  by (simp add: input_defs twitchplays_commands_toggle_def Let_def)

text \<open>
  No call returns the flag \<open>False\<close> for a message because the switch is disabled. For
  the message LEFT, which is a key of the command set, \<open>event_message\<close> returns \<open>None\<close>
  and not \<open>False\<close>, and \<open>process_twitchplays_commands\<close>, the one function that returns a
  flag, does not read the switch: called with the switch disabled it returns \<open>True\<close> and
  queues the action.
\<close>

theorem disabled_handling_returns_no_flag:
  "\<not> twitchplays_commands_enabled (snd (twitchplays_commands_toggle (main_bot scenario_config)))
   \<and> event_message_result casefold (snd (twitchplays_commands_toggle (main_bot scenario_config)))
        (user_message ''LEFT'') \<noteq> Some False
   \<and> process_twitchplays_commands casefold
        (snd (twitchplays_commands_toggle (main_bot scenario_config))) (user_message ''LEFT'')
       = (True, [Log_info (Queueing_input (str_of ''left''))],
          (main_bot scenario_config)
            \<lparr>twitchplays_commands_enabled := False,
              input_queue := [str_of ''left''], submitted := 1\<rparr>)"
  by (simp add: input_defs twitchplays_commands_toggle_def process_twitchplays_commands_def
        event_message_result_def Let_def)

text \<open>
  C6. When the text of the message, casefolded if \<open>case_insensitive\<close> is set, is no key
  of the command set, \<open>process_twitchplays_commands\<close> returns \<open>False\<close>, causes no event
  and leaves the bot as it was (queue and submitted worker calls included);
  \<open>event_message\<close> leaves the bot as it was too.
\<close>

theorem unmatched_message_no_effect:
  assumes "commandset b (if case_insensitive b then cf (content m) else content m) = None"
  shows "process_twitchplays_commands cf b m = (False, [], b)
         \<and> snd (event_message cf b m) = b"
proof -
  have p: "process_twitchplays_commands cf b m = (False, [], b)"
    using assms by (rule process_miss)
  have "snd (event_message cf b m) = b"
    by (simp add: event_message_def Let_def p)
  with p show ?thesis by simp
qed

theorem unmatched_message_no_effect_witness:
  "commandset (main_bot scenario_config) (casefold (content (user_message ''jump''))) = None
   \<and> process_twitchplays_commands casefold (main_bot scenario_config) (user_message ''jump'')
       = (False, [], main_bot scenario_config)
   \<and> snd (event_message casefold (main_bot scenario_config) (user_message ''jump''))
       = main_bot scenario_config"
  using unmatched_message_no_effect
    [of "main_bot scenario_config" casefold "user_message ''jump''"]
  by (simp add: input_defs)

section \<open>The worker\<close>

text \<open>The outcomes of \<open>input_queue_pop\<close>, one lemma for each way it can end.\<close>

lemma pop_empty:
  "input_queue b = [] \<Longrightarrow> input_queue_pop h b = (None, [Log_info Handling_one_input], b)"
  by (simp add: input_queue_pop_def)

lemma pop_bot:
  "input_queue b = a # rest \<Longrightarrow> snd (snd (input_queue_pop h b)) = b\<lparr>input_queue := rest\<rparr>"
  by (simp add: input_queue_pop_def Let_def)

lemma pop_all_return:
  assumes "input_queue b = a # rest"
    and "keyDown (if win32 h then pydirectinput h else pyautogui h) a = Inr ()"
    and "sleep h (keypress_duration b) = Inr ()"
    and "keyUp (if win32 h then pydirectinput h else pyautogui h) a = Inr ()"
    and "sleep h (keypress_delay b) = Inr ()"
  shows "input_queue_pop h b =
           (Some (Inr ()),
            [Log_info Handling_one_input, Log_info (Executing_input a),
             Key_down a, Sleep (keypress_duration b), Key_up a, Sleep (keypress_delay b)],
            b\<lparr>input_queue := rest\<rparr>)"
  using assms by (simp add: input_queue_pop_def Let_def)

lemma pop_keyDown_raises:
  assumes "input_queue b = a # rest"
    and "keyDown (if win32 h then pydirectinput h else pyautogui h) a = Inl e"
  shows "input_queue_pop h b =
           (Some (Inl e),
            [Log_info Handling_one_input, Log_info (Executing_input a), Key_down a],
            b\<lparr>input_queue := rest\<rparr>)"
  using assms by (simp add: input_queue_pop_def Let_def)

lemma pop_keyUp_raises:
  assumes "input_queue b = a # rest"
    and "keyDown (if win32 h then pydirectinput h else pyautogui h) a = Inr ()"
    and "sleep h (keypress_duration b) = Inr ()"
    and "keyUp (if win32 h then pydirectinput h else pyautogui h) a = Inl e"
  shows "input_queue_pop h b =
           (Some (Inl e),
            [Log_info Handling_one_input, Log_info (Executing_input a),
             Key_down a, Sleep (keypress_duration b), Key_up a],
            b\<lparr>input_queue := rest\<rparr>)"
  using assms by (simp add: input_queue_pop_def Let_def)

text \<open>
  Whatever raises, the events of a worker call are an initial part of the one fixed
  sequence.
\<close>

lemma run_seq_prefix: "prefix (snd (run_seq xs)) (concat (map snd xs))"
proof (induction xs rule: run_seq.induct)
  case 1
  show ?case by simp
next
  case (2 e evs rest)
  show ?case by simp
next
  case (3 u evs rest)
  then show ?case by simp
qed

lemma pop_events_prefix:
  assumes "input_queue b = a # rest"
  shows "prefix (fst (snd (input_queue_pop h b)))
           [Log_info Handling_one_input, Log_info (Executing_input a),
            Key_down a, Sleep (keypress_duration b), Key_up a, Sleep (keypress_delay b)]"
proof -
  let ?em = "if win32 h then pydirectinput h else pyautogui h"
  let ?xs = "[(Inr (), [Log_info Handling_one_input, Log_info (Executing_input a)]),
              (keyDown ?em a, [Key_down a]),
              (sleep h (keypress_duration b), [Sleep (keypress_duration b)]),
              (keyUp ?em a, [Key_up a]),
              (sleep h (keypress_delay b), [Sleep (keypress_delay b)])]"
  have "fst (snd (input_queue_pop h b)) = snd (run_seq ?xs)"
    using assms by (simp add: input_queue_pop_def Let_def)
  moreover have "prefix (snd (run_seq ?xs)) (concat (map snd ?xs))"
    by (rule run_seq_prefix)
  ultimately show ?thesis by simp
qed

lemma process_no_sleep: "Sleep d \<notin> set (fst (snd (process_twitchplays_commands cf b m)))"
  by (simp add: process_twitchplays_commands_def Let_def split: option.split)

lemma event_message_no_sleep: "Sleep d \<notin> set (fst (event_message cf b m))"
  by (simp add: event_message_def Let_def process_no_sleep)

lemma toggle_no_sleep: "Sleep d \<notin> set (fst (twitchplays_commands_toggle b))"
  by (simp add: twitchplays_commands_toggle_def Let_def)

text \<open>
  C7. A worker call that finds the action \<open>a\<close> at the head of the queue, and whose
  library calls all return, does exactly this, in this order: \<open>keyDown\<close> of \<open>a\<close>, a
  sleep of \<open>keypress_duration\<close>, \<open>keyUp\<close> of the same \<open>a\<close>, a sleep of
  \<open>keypress_delay\<close>; then it returns, with \<open>a\<close> taken off the queue. No other function
  of the bot sleeps: the message path and the toggle cause no sleep at all.
  (On an empty queue the worker waits in \<open>Queue.get\<close>, see \<open>pop_empty\<close>.)
\<close>

theorem worker_cycle:
  assumes "input_queue b = a # rest"
    and "keyDown (if win32 h then pydirectinput h else pyautogui h) a = Inr ()"
    and "sleep h (keypress_duration b) = Inr ()"
    and "keyUp (if win32 h then pydirectinput h else pyautogui h) a = Inr ()"
    and "sleep h (keypress_delay b) = Inr ()"
  shows "input_queue_pop h b =
           (Some (Inr ()),
            [Log_info Handling_one_input, Log_info (Executing_input a),
             Key_down a, Sleep (keypress_duration b), Key_up a, Sleep (keypress_delay b)],
            b\<lparr>input_queue := rest\<rparr>)
         \<and> Sleep d \<notin> set (fst (snd (process_twitchplays_commands cf b m)))
         \<and> Sleep d \<notin> set (fst (event_message cf b m))
         \<and> Sleep d \<notin> set (fst (twitchplays_commands_toggle b))"
  by (simp add: pop_all_return [OF assms] process_no_sleep event_message_no_sleep
        toggle_no_sleep)

theorem worker_cycle_witness:
  "input_queue_pop (posix_host working_emulator)
     ((main_bot scenario_config)\<lparr>keypress_delay := 1 / 2, input_queue := [str_of ''enter'', str_of ''left'']\<rparr>)
   = (Some (Inr ()),
      [Log_info Handling_one_input, Log_info (Executing_input (str_of ''enter'')),
       Key_down (str_of ''enter''), Sleep (1 / 10), Key_up (str_of ''enter''), Sleep (1 / 2)],
      (main_bot scenario_config)\<lparr>keypress_delay := 1 / 2, input_queue := [str_of ''left'']\<rparr>)"
  using worker_cycle
    [of "(main_bot scenario_config)\<lparr>keypress_delay := 1 / 2, input_queue := [str_of ''enter'', str_of ''left'']\<rparr>"
        "str_of ''enter''" "[str_of ''left'']" "posix_host working_emulator"]
  by (simp add: input_defs)

section \<open>The holds that main configures\<close>

lemma main_bot_holds:
  "keypress_duration (main_bot config) = cfg_keypress_duration config"
  "keypress_delay (main_bot config) = cfg_keypress_duration config"
  by (simp_all add: main_bot_def init_def)

text \<open>
  C1. The hold between key-down and key-up is the configured \<open>keypress_duration\<close>, but
  the hold after key-up is not the configured \<open>keypress_delay\<close>: \<open>main\<close> passes the
  configuration's \<open>keypress_duration\<close> for both arguments. With a duration of 0.1 and a
  delay of 0.5 in the configuration, the bot's \<open>keypress_delay\<close> is 0.1 and the worker
  that presses the key queued for the message LEFT sleeps 0.1 after key-up.
\<close>

theorem main_passes_duration_as_delay:
  "cfg_keypress_duration scenario_config = 1 / 10
   \<and> cfg_keypress_delay scenario_config = 1 / 2
   \<and> keypress_delay (main_bot scenario_config) = 1 / 10
   \<and> input_queue_pop (posix_host working_emulator)
        (snd (snd (process_twitchplays_commands casefold (main_bot scenario_config)
                     (user_message ''LEFT''))))
       = (Some (Inr ()),
          [Log_info Handling_one_input, Log_info (Executing_input (str_of ''left'')),
           Key_down (str_of ''left''), Sleep (1 / 10), Key_up (str_of ''left''), Sleep (1 / 10)],
          (main_bot scenario_config)\<lparr>submitted := 1\<rparr>)"
  by (simp add: input_defs process_twitchplays_commands_def input_queue_pop_def Let_def)

section \<open>A library call of the worker raises\<close>

text \<open>The message path makes no call of the emulator.\<close>

lemma process_no_key_event:
  "Key_down k \<notin> set (fst (snd (process_twitchplays_commands cf b m)))"
  "Key_up k \<notin> set (fst (snd (process_twitchplays_commands cf b m)))"
  by (simp_all add: process_twitchplays_commands_def Let_def split: option.split)

lemma event_message_no_key_event:
  "Key_down k \<notin> set (fst (event_message cf b m))"
  "Key_up k \<notin> set (fst (event_message cf b m))"
  by (simp_all add: event_message_def Let_def process_no_key_event)

text \<open>
  A worker call that finds an action returns or raises, and a pool thread runs every
  call it is given as long as the queue holds an action for each, whatever the calls
  before raised.
\<close>

lemma pop_returns:
  "input_queue b = a # rest \<Longrightarrow>
   \<exists>r evs. input_queue_pop h b = (Some r, evs, b\<lparr>input_queue := rest\<rparr>)"
  by (simp add: input_queue_pop_def Let_def)

lemma pool_worker_runs_all:
  "n \<le> length (input_queue b) \<Longrightarrow>
   length (fst (pool_worker h n b)) = n
   \<and> input_queue (snd (snd (pool_worker h n b))) = drop n (input_queue b)"
proof (induction n arbitrary: b)
  case 0
  show ?case by simp
next
  case (Suc n)
  then obtain a rest where q: "input_queue b = a # rest"
    by (cases "input_queue b") auto
  from pop_returns [OF q] obtain r evs
    where p: "input_queue_pop h b = (Some r, evs, b\<lparr>input_queue := rest\<rparr>)"
    by blast
  have "n \<le> length (input_queue (b\<lparr>input_queue := rest\<rparr>))"
    using Suc.prems q by simp
  from Suc.IH [OF this] show ?case
    by (simp add: p q)
qed

text \<open>
  C4. If \<open>keyDown\<close> or \<open>keyUp\<close> raises during a worker call, the error is not reported:
  the call ends at the call that failed, with the error as its outcome, and its events
  hold no log record after that call (after a failed \<open>keyDown\<close> there is no sleep and no
  \<open>keyUp\<close>, after a failed \<open>keyUp\<close> no closing sleep). The error is not propagated to the
  message path: \<open>process_twitchplays_commands\<close> and \<open>event_message\<close> make no emulator
  call, and the bot after the failed call is the bot after a call that returned, with
  the action off the queue and nothing else changed. It does not end the run, and the
  worker recovers: the pool thread keeps the error in the future of that call and runs
  the \<open>n\<close> calls that follow as it would have without the error, and of \<open>j\<close> calls
  with an action each in the queue every one is run to its outcome.
\<close>

theorem emulation_error_ends_cycle:
  assumes "input_queue b = a # rest"
  shows "(keyDown (if win32 h then pydirectinput h else pyautogui h) a = Inl e \<longrightarrow>
            input_queue_pop h b =
              (Some (Inl e),
               [Log_info Handling_one_input, Log_info (Executing_input a), Key_down a],
               b\<lparr>input_queue := rest\<rparr>)
            \<and> pool_worker h (Suc n) b =
              (Inl e # fst (pool_worker h n (b\<lparr>input_queue := rest\<rparr>)),
               [Log_info Handling_one_input, Log_info (Executing_input a), Key_down a]
                 @ fst (snd (pool_worker h n (b\<lparr>input_queue := rest\<rparr>))),
               snd (snd (pool_worker h n (b\<lparr>input_queue := rest\<rparr>)))))
         \<and> (keyDown (if win32 h then pydirectinput h else pyautogui h) a = Inr ()
            \<and> sleep h (keypress_duration b) = Inr ()
            \<and> keyUp (if win32 h then pydirectinput h else pyautogui h) a = Inl e \<longrightarrow>
            input_queue_pop h b =
              (Some (Inl e),
               [Log_info Handling_one_input, Log_info (Executing_input a),
                Key_down a, Sleep (keypress_duration b), Key_up a],
               b\<lparr>input_queue := rest\<rparr>)
            \<and> pool_worker h (Suc n) b =
              (Inl e # fst (pool_worker h n (b\<lparr>input_queue := rest\<rparr>)),
               [Log_info Handling_one_input, Log_info (Executing_input a),
                Key_down a, Sleep (keypress_duration b), Key_up a]
                 @ fst (snd (pool_worker h n (b\<lparr>input_queue := rest\<rparr>))),
               snd (snd (pool_worker h n (b\<lparr>input_queue := rest\<rparr>)))))
         \<and> snd (snd (input_queue_pop h b)) = b\<lparr>input_queue := rest\<rparr>
         \<and> (j \<le> length (input_queue b) \<longrightarrow>
              length (fst (pool_worker h j b)) = j
              \<and> input_queue (snd (snd (pool_worker h j b))) = drop j (input_queue b))
         \<and> Key_down k \<notin> set (fst (snd (process_twitchplays_commands cf b' m)))
         \<and> Key_up k \<notin> set (fst (snd (process_twitchplays_commands cf b' m)))
         \<and> Key_down k \<notin> set (fst (event_message cf b' m))
         \<and> Key_up k \<notin> set (fst (event_message cf b' m))"
proof -
  let ?em = "if win32 h then pydirectinput h else pyautogui h"
  have down: "input_queue_pop h b =
      (Some (Inl e), [Log_info Handling_one_input, Log_info (Executing_input a), Key_down a],
       b\<lparr>input_queue := rest\<rparr>)
    \<and> pool_worker h (Suc n) b =
      (Inl e # fst (pool_worker h n (b\<lparr>input_queue := rest\<rparr>)),
       [Log_info Handling_one_input, Log_info (Executing_input a), Key_down a]
         @ fst (snd (pool_worker h n (b\<lparr>input_queue := rest\<rparr>))),
       snd (snd (pool_worker h n (b\<lparr>input_queue := rest\<rparr>))))"
    if "keyDown ?em a = Inl e"
    using pop_keyDown_raises [OF assms that] by simp
  have up: "input_queue_pop h b =
      (Some (Inl e),
       [Log_info Handling_one_input, Log_info (Executing_input a),
        Key_down a, Sleep (keypress_duration b), Key_up a],
       b\<lparr>input_queue := rest\<rparr>)
    \<and> pool_worker h (Suc n) b =
      (Inl e # fst (pool_worker h n (b\<lparr>input_queue := rest\<rparr>)),
       [Log_info Handling_one_input, Log_info (Executing_input a),
        Key_down a, Sleep (keypress_duration b), Key_up a]
         @ fst (snd (pool_worker h n (b\<lparr>input_queue := rest\<rparr>))),
       snd (snd (pool_worker h n (b\<lparr>input_queue := rest\<rparr>))))"
    if "keyDown ?em a = Inr ()" "sleep h (keypress_duration b) = Inr ()" "keyUp ?em a = Inl e"
    using pop_keyUp_raises [OF assms that] by simp
  have after: "snd (snd (input_queue_pop h b)) = b\<lparr>input_queue := rest\<rparr>"
    using assms by (rule pop_bot)
  have all: "length (fst (pool_worker h j b)) = j
      \<and> input_queue (snd (snd (pool_worker h j b))) = drop j (input_queue b)"
    if "j \<le> length (input_queue b)"
    using that by (rule pool_worker_runs_all)
  have msg: "Key_down k \<notin> set (fst (snd (process_twitchplays_commands cf b' m)))
      \<and> Key_up k \<notin> set (fst (snd (process_twitchplays_commands cf b' m)))
      \<and> Key_down k \<notin> set (fst (event_message cf b' m))
      \<and> Key_up k \<notin> set (fst (event_message cf b' m))"
    by (simp add: process_no_key_event event_message_no_key_event)
  show ?thesis
    using down up after all msg by blast
qed

theorem emulation_error_ends_cycle_witness:
  "input_queue_pop (posix_host keyDown_fails)
     ((main_bot scenario_config)\<lparr>input_queue := [str_of ''left'', str_of ''enter'']\<rparr>)
   = (Some (Inl EmulationError),
      [Log_info Handling_one_input, Log_info (Executing_input (str_of ''left'')),
       Key_down (str_of ''left'')],
      (main_bot scenario_config)\<lparr>input_queue := [str_of ''enter'']\<rparr>)
   \<and> input_queue_pop (posix_host keyUp_fails)
     ((main_bot scenario_config)\<lparr>input_queue := [str_of ''left'', str_of ''enter'']\<rparr>)
   = (Some (Inl EmulationError),
      [Log_info Handling_one_input, Log_info (Executing_input (str_of ''left'')),
       Key_down (str_of ''left''), Sleep (1 / 10), Key_up (str_of ''left'')],
      (main_bot scenario_config)\<lparr>input_queue := [str_of ''enter'']\<rparr>)
   \<and> pool_worker (posix_host (keyDown_fails_on (str_of ''left''))) 2
     ((main_bot scenario_config)\<lparr>input_queue := [str_of ''left'', str_of ''enter'']\<rparr>)
   = ([Inl EmulationError, Inr ()],
      [Log_info Handling_one_input, Log_info (Executing_input (str_of ''left'')),
       Key_down (str_of ''left''),
       Log_info Handling_one_input, Log_info (Executing_input (str_of ''enter'')),
       Key_down (str_of ''enter''), Sleep (1 / 10), Key_up (str_of ''enter''), Sleep (1 / 10)],
      (main_bot scenario_config)\<lparr>input_queue := []\<rparr>)"
proof -
  let ?b = "(main_bot scenario_config)\<lparr>input_queue := [str_of ''left'', str_of ''enter'']\<rparr>"
  let ?b1 = "(main_bot scenario_config)\<lparr>input_queue := [str_of ''enter'']\<rparr>"
  let ?h = "posix_host (keyDown_fails_on (str_of ''left''))"
  have q: "input_queue ?b = str_of ''left'' # [str_of ''enter'']"
    by simp
  have b1: "?b\<lparr>input_queue := [str_of ''enter'']\<rparr> = ?b1"
    by simp
  have dur: "keypress_duration ?b = 1 / 10"
    by (simp add: main_bot_def init_def scenario_config_def)
  have ne: "str_of ''enter'' \<noteq> str_of ''left''"
    by (simp add: str_of_def)
  have "keyDown (if win32 (posix_host keyDown_fails) then pydirectinput (posix_host keyDown_fails)
                 else pyautogui (posix_host keyDown_fails)) (str_of ''left'') = Inl EmulationError"
    by (simp add: posix_host_def keyDown_fails_def)
  with emulation_error_ends_cycle [OF q, of "posix_host keyDown_fails" EmulationError]
  have c1: "input_queue_pop (posix_host keyDown_fails) ?b =
      (Some (Inl EmulationError),
       [Log_info Handling_one_input, Log_info (Executing_input (str_of ''left'')),
        Key_down (str_of ''left'')], ?b1)"
    unfolding b1 by blast
  have "keyDown (if win32 (posix_host keyUp_fails) then pydirectinput (posix_host keyUp_fails)
                 else pyautogui (posix_host keyUp_fails)) (str_of ''left'') = Inr ()
        \<and> sleep (posix_host keyUp_fails) (keypress_duration ?b) = Inr ()
        \<and> keyUp (if win32 (posix_host keyUp_fails) then pydirectinput (posix_host keyUp_fails)
                 else pyautogui (posix_host keyUp_fails)) (str_of ''left'') = Inl EmulationError"
    by (simp add: posix_host_def keyUp_fails_def dur)
  with emulation_error_ends_cycle [OF q, of "posix_host keyUp_fails" EmulationError]
  have "input_queue_pop (posix_host keyUp_fails) ?b =
      (Some (Inl EmulationError),
       [Log_info Handling_one_input, Log_info (Executing_input (str_of ''left'')),
        Key_down (str_of ''left''), Sleep (keypress_duration ?b), Key_up (str_of ''left'')], ?b1)"
    unfolding b1 by blast
  then have c2: "input_queue_pop (posix_host keyUp_fails) ?b =
      (Some (Inl EmulationError),
       [Log_info Handling_one_input, Log_info (Executing_input (str_of ''left'')),
        Key_down (str_of ''left''), Sleep (1 / 10), Key_up (str_of ''left'')], ?b1)"
    unfolding dur .
  have "keyDown (if win32 ?h then pydirectinput ?h else pyautogui ?h) (str_of ''left'')
          = Inl EmulationError"
    by (simp add: posix_host_def keyDown_fails_on_def)
  with emulation_error_ends_cycle [OF q, of ?h EmulationError "Suc 0"]
  have step: "pool_worker ?h (Suc (Suc 0)) ?b =
      (Inl EmulationError # fst (pool_worker ?h (Suc 0) ?b1),
       [Log_info Handling_one_input, Log_info (Executing_input (str_of ''left'')),
        Key_down (str_of ''left'')] @ fst (snd (pool_worker ?h (Suc 0) ?b1)),
       snd (snd (pool_worker ?h (Suc 0) ?b1)))"
    unfolding b1 by blast
  have pop2: "input_queue_pop ?h ?b1 =
      (Some (Inr ()),
       [Log_info Handling_one_input, Log_info (Executing_input (str_of ''enter'')),
        Key_down (str_of ''enter''), Sleep (1 / 10), Key_up (str_of ''enter''), Sleep (1 / 10)],
       (main_bot scenario_config)\<lparr>input_queue := []\<rparr>)"
    using ne
    by (simp add: input_queue_pop_def Let_def posix_host_def keyDown_fails_on_def
          main_bot_def init_def scenario_config_def)
  have next_call: "pool_worker ?h (Suc 0) ?b1 =
      ([Inr ()],
       [Log_info Handling_one_input, Log_info (Executing_input (str_of ''enter'')),
        Key_down (str_of ''enter''), Sleep (1 / 10), Key_up (str_of ''enter''), Sleep (1 / 10)],
       (main_bot scenario_config)\<lparr>input_queue := []\<rparr>)"
    by (simp add: pop2)
  have c3: "pool_worker ?h 2 ?b =
      ([Inl EmulationError, Inr ()],
       [Log_info Handling_one_input, Log_info (Executing_input (str_of ''left'')),
        Key_down (str_of ''left''),
        Log_info Handling_one_input, Log_info (Executing_input (str_of ''enter'')),
        Key_down (str_of ''enter''), Sleep (1 / 10), Key_up (str_of ''enter''), Sleep (1 / 10)],
       (main_bot scenario_config)\<lparr>input_queue := []\<rparr>)"
    unfolding numeral_2_eq_2 step next_call by simp
  from c1 c2 c3 show ?thesis by (intro conjI)
qed

text \<open>
  No log record follows a failed call. With an emulator whose \<open>keyDown\<close> raises, the
  worker for the message LEFT ends with the error as its outcome, and its events are
  the two records written before the call and the call itself: the error is reported
  nowhere.
\<close>

theorem failed_keyDown_is_not_logged:
  "input_queue_pop (posix_host keyDown_fails)
     (snd (snd (process_twitchplays_commands casefold (main_bot scenario_config)
                  (user_message ''LEFT''))))
   = (Some (Inl EmulationError),
      [Log_info Handling_one_input, Log_info (Executing_input (str_of ''left'')),
       Key_down (str_of ''left'')],
      (main_bot scenario_config)\<lparr>submitted := 1\<rparr>)"
  by (simp add: input_defs process_twitchplays_commands_def input_queue_pop_def Let_def)

section \<open>Matching with and without case folding\<close>

lemma casefold_UP: "casefold (str_of ''UP'') = str_of ''up''" "casefold (str_of ''up'') = str_of ''up''"
  by (simp_all add: casefold_def casefold_cp_def str_of_def)

text \<open>
  C5. For a command set with the key \<open>up\<close>: if \<open>case_insensitive\<close> is set, the messages
  UP and up are both casefolded to \<open>up\<close>, match that entry and queue its value; if it
  is not set, a message matches exactly when its text, as it is, is a key of the command
  set, whatever the folding function is.
\<close>

theorem case_insensitive_up:
  assumes "commandset b (str_of ''up'') = Some v"
  shows "(case_insensitive b \<and> (content m = str_of ''UP'' \<or> content m = str_of ''up'') \<longrightarrow>
            process_twitchplays_commands casefold b m =
              (True, [Log_info (Queueing_input v)],
               b\<lparr>input_queue := input_queue b @ [v], submitted := Suc (submitted b)\<rparr>))
         \<and> (\<not> case_insensitive b \<longrightarrow>
              fst (process_twitchplays_commands cf b m) = (content m \<in> dom (commandset b)))"
proof -
  have "fst (process_twitchplays_commands cf b m) = (content m \<in> dom (commandset b))"
    if "\<not> case_insensitive b"
    using that by (auto simp add: process_twitchplays_commands_def Let_def split: option.split)
  moreover have "process_twitchplays_commands casefold b m =
              (True, [Log_info (Queueing_input v)],
               b\<lparr>input_queue := input_queue b @ [v], submitted := Suc (submitted b)\<rparr>)"
    if "case_insensitive b" "content m = str_of ''UP'' \<or> content m = str_of ''up''"
    using that assms casefold_UP by (intro process_hit) auto
  ultimately show ?thesis by blast
qed

theorem case_insensitive_up_witness:
  "fst (process_twitchplays_commands casefold (init (0::real) 0 1 test_keys_fbneo True) (user_message ''UP''))
   \<and> fst (process_twitchplays_commands casefold (init (0::real) 0 1 test_keys_fbneo True) (user_message ''up''))
   \<and> \<not> fst (process_twitchplays_commands casefold (init (0::real) 0 1 test_keys_fbneo False) (user_message ''UP''))
   \<and> fst (process_twitchplays_commands casefold (init (0::real) 0 1 test_keys_fbneo False) (user_message ''up''))"
  using case_insensitive_up
    [of "init (0::real) 0 1 test_keys_fbneo True" "str_of ''up''" "user_message ''UP''" casefold]
    case_insensitive_up
    [of "init (0::real) 0 1 test_keys_fbneo True" "str_of ''up''" "user_message ''up''" casefold]
    case_insensitive_up
    [of "init (0::real) 0 1 test_keys_fbneo False" "str_of ''up''" "user_message ''UP''" casefold]
    case_insensitive_up
    [of "init (0::real) 0 1 test_keys_fbneo False" "str_of ''up''" "user_message ''up''" casefold]
  by (simp add: input_defs dom_def)

section \<open>Keys that no casefolded message equals\<close>

lemma casefold_cp_no_ascii_upper: "c \<in> set (casefold_cp d) \<Longrightarrow> \<not> ascii_upper c"
  by (auto simp add: casefold_cp_def ascii_upper_def split: if_splits)

lemma casefold_no_ascii_upper: "c \<in> set (casefold s) \<Longrightarrow> \<not> ascii_upper c"
  by (auto simp add: casefold_def dest: casefold_cp_no_ascii_upper)

lemma process_without_entry:
  assumes "(if case_insensitive b then cf (content m) else content m) \<noteq> k"
  shows "process_twitchplays_commands cf (b\<lparr>commandset := (commandset b)(k := None)\<rparr>) m =
           (fst (process_twitchplays_commands cf b m),
            fst (snd (process_twitchplays_commands cf b m)),
            (snd (snd (process_twitchplays_commands cf b m)))
              \<lparr>commandset := (commandset b)(k := None)\<rparr>)"
  using assms
  by (simp add: process_twitchplays_commands_def Let_def split: option.split)

text \<open>
  C10. Let \<open>case_insensitive\<close> be set and let the folding function yield no capital
  letter A to Z, as \<open>str.casefold\<close> does. Then an entry whose key \<open>k\<close> contains a capital
  letter A to Z, such as \<open>COIN\<close>, is matched by no message: the text that is looked up
  is never \<open>k\<close>, since only the message is casefolded and never the keys, and taking the
  entry out of the command set changes neither the returned flag, nor the events, nor
  the queue of any call.
\<close>

theorem ascii_capital_key_is_never_matched:
  assumes "\<And>s c. c \<in> set (cf s) \<Longrightarrow> \<not> ascii_upper c"
    and "case_insensitive b"
    and "c \<in> set k" and "ascii_upper c"
  shows "(if case_insensitive b then cf (content m) else content m) \<noteq> k
         \<and> process_twitchplays_commands cf (b\<lparr>commandset := (commandset b)(k := None)\<rparr>) m =
             (fst (process_twitchplays_commands cf b m),
              fst (snd (process_twitchplays_commands cf b m)),
              (snd (snd (process_twitchplays_commands cf b m)))
                \<lparr>commandset := (commandset b)(k := None)\<rparr>)"
proof -
  have "cf (content m) \<noteq> k"
    using assms(1) [of c "content m"] assms(3,4) by auto
  then have ne: "(if case_insensitive b then cf (content m) else content m) \<noteq> k"
    using assms(2) by simp
  from ne process_without_entry [of b cf m k] show ?thesis by simp
qed

theorem ascii_capital_key_is_never_matched_witness:
  "case_insensitive (init (0::real) 0 1 test_keys_fbneo True)
   \<and> test_keys_fbneo (str_of ''COIN'') = Some (str_of ''shiftright'')
   \<and> ascii_upper 67 \<and> 67 \<in> set (str_of ''COIN'')
   \<and> process_twitchplays_commands casefold (init (0::real) 0 1 test_keys_fbneo True)
        (user_message ''COIN'')
       = (False, [], init 0 0 1 test_keys_fbneo True)
   \<and> process_twitchplays_commands casefold
        ((init (0::real) 0 1 test_keys_fbneo True)
           \<lparr>commandset := test_keys_fbneo(str_of ''COIN'' := None)\<rparr>)
        (user_message ''COIN'')
       = (False, [], (init 0 0 1 test_keys_fbneo True)
           \<lparr>commandset := test_keys_fbneo(str_of ''COIN'' := None)\<rparr>)"
proof -
  have u: "ascii_upper 67" by (simp add: ascii_upper_def)
  have i: "67 \<in> set (str_of ''COIN'')" by (simp add: str_of_def)
  have c: "case_insensitive (init (0::real) 0 1 test_keys_fbneo True)" by (simp add: init_def)
  have p: "process_twitchplays_commands casefold (init (0::real) 0 1 test_keys_fbneo True)
        (user_message ''COIN'') = (False, [], init 0 0 1 test_keys_fbneo True)"
    by (simp add: input_defs process_twitchplays_commands_def Let_def)
  have k: "test_keys_fbneo (str_of ''COIN'') = Some (str_of ''shiftright'')"
    by (simp add: test_keys_fbneo_def str_of_def)
  have t: "commandset (init (0::real) 0 1 test_keys_fbneo True) = test_keys_fbneo"
    by (simp add: init_def)
  from ascii_capital_key_is_never_matched
    [of casefold "init (0::real) 0 1 test_keys_fbneo True" 67 "str_of ''COIN''"
        "user_message ''COIN''", OF casefold_no_ascii_upper c i u]
  show ?thesis using u i c p k t by simp
qed

text \<open>
  The same does not hold for every capital letter. The Cherokee capital letters fold to
  themselves and the small ones fold to the capital ones, so with \<open>case_insensitive\<close> set
  the entry keyed with the capital letter U+13A0 is matched by the message of the small
  letter U+AB70 and by the message of the capital letter itself.
\<close>

theorem cherokee_capital_key_is_matched:
  "case_insensitive (init (0::real) 0 1 cherokee_keys True)
   \<and> cherokee_keys [5024] = Some (str_of ''a'')
   \<and> process_twitchplays_commands casefold (init (0::real) 0 1 cherokee_keys True)
        \<lparr>content = [43888], echo = False, author_name = str_of ''viewer''\<rparr>
       = (True, [Log_info (Queueing_input (str_of ''a''))],
          (init 0 0 1 cherokee_keys True)\<lparr>input_queue := [str_of ''a''], submitted := 1\<rparr>)
   \<and> process_twitchplays_commands casefold (init (0::real) 0 1 cherokee_keys True)
        \<lparr>content = [5024], echo = False, author_name = str_of ''viewer''\<rparr>
       = (True, [Log_info (Queueing_input (str_of ''a''))],
          (init 0 0 1 cherokee_keys True)\<lparr>input_queue := [str_of ''a''], submitted := 1\<rparr>)"
  by (simp add: input_defs process_twitchplays_commands_def Let_def)

end
